theory Spec2Isabelle
  imports Complex_Main "HOL-Library.Log_Nat"
begin

section \<open>Python values used by radix.py\<close>

text \<open>
  A Python \<open>str\<close> is a sequence of Unicode code points, and two of the presets use
  digits outside Latin-1, so a character is its code point and a string is a list of
  code points. \<open>py_str\<close> reads an ASCII literal.
\<close>

type_synonym pychar = nat
type_synonym pystr = "pychar list"

definition py_str :: "string \<Rightarrow> pystr" where
  "py_str s = map of_char s"

text \<open>The constants of the \<open>string\<close> module that radix.py reads.\<close>

definition string_digits :: pystr where
  "string_digits = py_str ''0123456789''"

definition ascii_uppercase :: pystr where
  "ascii_uppercase = py_str ''ABCDEFGHIJKLMNOPQRSTUVWXYZ''"

definition ascii_lowercase :: pystr where
  "ascii_lowercase = py_str ''abcdefghijklmnopqrstuvwxyz''"

text \<open>
  The exceptions that the modelled paths can raise. radix.py defines no exception class
  of its own: \<open>ValueError\<close> is raised by \<open>decode\<close> and by the built-in \<open>format\<close>,
  the others by the built-in operations named in the comments below.
\<close>

datatype error = ValueError | TypeError | ZeroDivisionError | IndexError | OverflowError

text \<open>
  A number is an \<open>int\<close> (unbounded) or a \<open>float\<close>. The type parameter is what the
  model knows of a float. For the argument of \<open>encode\<close> it is the rational number
  that a finite float stands for (\<open>rat number\<close>); NaN and the infinities are not
  values of the model, and \<open>-0.0\<close> is \<open>0\<close> (the code only compares it with \<open>0\<close>
  and takes \<open>abs\<close>). For the result of \<open>decode\<close> it is nothing (\<open>unit number\<close>): a
  float result of \<open>decode\<close> comes out of the platform's \<open>pow\<close>, which is not
  correctly rounded, so the model says that the result is a float and not which one.
\<close>

datatype 'f number = PyInt int | PyFloat 'f

subsection \<open>String methods\<close>

text \<open>The characters for which \<open>str.isspace\<close> holds; \<open>str.strip()\<close> removes them.\<close>

definition isspace :: "pychar \<Rightarrow> bool" where
  "isspace c \<longleftrightarrow>
     (9 \<le> c \<and> c \<le> 13) \<or> (28 \<le> c \<and> c \<le> 32) \<or> c = 133 \<or> c = 160 \<or> c = 5760 \<or>
     (8192 \<le> c \<and> c \<le> 8202) \<or> c = 8232 \<or> c = 8233 \<or> c = 8239 \<or> c = 8287 \<or> c = 12288"

definition strip :: "pystr \<Rightarrow> pystr" where
  "strip s = rev (dropWhile isspace (rev (dropWhile isspace s)))"

text \<open>\<open>s.rstrip(chars)\<close>: drop trailing characters that occur in \<open>chars\<close>.\<close>

definition rstrip :: "pystr \<Rightarrow> pystr \<Rightarrow> pystr" where
  "rstrip s chars = rev (dropWhile (\<lambda>c. c \<in> set chars) (rev s))"

definition startswith :: "pystr \<Rightarrow> pystr \<Rightarrow> bool" where
  "startswith s p \<longleftrightarrow> take (length p) s = p"

definition endswith :: "pystr \<Rightarrow> pystr \<Rightarrow> bool" where
  "endswith s p \<longleftrightarrow> length p \<le> length s \<and> drop (length s - length p) s = p"

text \<open>
  \<open>s.index(sub)\<close>: the lowest position at which \<open>sub\<close> occurs in \<open>s\<close>; \<open>None\<close>
  stands for the \<open>ValueError\<close> of a missing substring, which both callers catch.
\<close>

fun str_index :: "pystr \<Rightarrow> pystr \<Rightarrow> nat option" where
  "str_index [] sub = (if sub = [] then Some 0 else None)"
| "str_index (c # s) sub =
     (if startswith (c # s) sub then Some 0 else map_option Suc (str_index s sub))"

text \<open>\<open>digits.index(digit)\<close> for a single character: its first position.\<close>

fun char_index :: "pystr \<Rightarrow> pychar \<Rightarrow> nat option" where
  "char_index [] d = None"
| "char_index (c # s) d = (if c = d then Some 0 else map_option Suc (char_index s d))"

section \<open>The class Radix\<close>

text \<open>
  The object holds the attribute \<open>_digits\<close>, the attribute \<open>_base\<close> that the setter
  of \<open>digits\<close> derives from it, and the five symbols. The field \<open>exp\<close> is named
  \<open>exp_sym\<close> here.
\<close>

record radix =
  digits :: pystr
  base :: nat
  sep :: pystr
  neg :: pystr
  tsep :: pystr
  pos :: pystr
  exp_sym :: pystr

text \<open>
  The keyword arguments of the constructor, each absent or given. The class methods
  pass theirs on as \<open>**kwargs\<close>.
\<close>

record kwargs =
  kw_sep :: "pystr option"
  kw_neg :: "pystr option"
  kw_tsep :: "pystr option"
  kw_pos :: "pystr option"
  kw_exp :: "pystr option"

definition no_kwargs :: kwargs where
  "no_kwargs = \<lparr>kw_sep = None, kw_neg = None, kw_tsep = None, kw_pos = None, kw_exp = None\<rparr>"

text \<open>The setter of the property \<open>digits\<close> (lines 188-191).\<close>

definition set_digits :: "radix \<Rightarrow> pystr \<Rightarrow> radix" where
  "set_digits r ds = r\<lparr>digits := ds, base := length ds\<rparr>"

text \<open>
  \<open>__init__\<close> (lines 35-42) assigns \<open>digits\<close> through the setter and then the five
  symbols; it has no check and no \<open>raise\<close>, so the result is always \<open>Inr\<close>.
\<close>

definition Radix_init :: "pystr \<Rightarrow> kwargs \<Rightarrow> error + radix" where
  "Radix_init ds kw =
     Inr \<lparr>digits = ds, base = length ds,
          sep = (case kw_sep kw of None \<Rightarrow> py_str ''.'' | Some s \<Rightarrow> s),
          neg = (case kw_neg kw of None \<Rightarrow> py_str ''-'' | Some s \<Rightarrow> s),
          tsep = (case kw_tsep kw of None \<Rightarrow> py_str '','' | Some s \<Rightarrow> s),
          pos = (case kw_pos kw of None \<Rightarrow> py_str ''+'' | Some s \<Rightarrow> s),
          exp_sym = (case kw_exp kw of None \<Rightarrow> py_str ''e'' | Some s \<Rightarrow> s)\<rparr>"

text \<open>\<open>kwargs.setdefault("sep", ";")\<close> of the dozenal presets.\<close>

definition setdefault_sep :: "kwargs \<Rightarrow> pystr \<Rightarrow> kwargs" where
  "setdefault_sep kw s = (case kw_sep kw of None \<Rightarrow> kw\<lparr>kw_sep := Some s\<rparr> | Some _ \<Rightarrow> kw)"

subsection \<open>The class methods (lines 49-182)\<close>

definition by_base :: "int \<Rightarrow> kwargs \<Rightarrow> error + radix" where
  "by_base b kw =
     Radix_init (take (nat \<bar>b\<bar>) (string_digits @ ascii_uppercase @ ascii_lowercase @ [])) kw"

definition bin :: "kwargs \<Rightarrow> error + radix" where
  "bin kw = Radix_init (py_str ''01'') kw"

definition oct :: "kwargs \<Rightarrow> error + radix" where
  "oct kw = Radix_init (take 8 string_digits) kw"

definition hex :: "kwargs \<Rightarrow> error + radix" where
  "hex kw = Radix_init (string_digits @ py_str ''ABCDEF'') kw"

definition hex_lc :: "kwargs \<Rightarrow> error + radix" where
  "hex_lc kw = Radix_init (string_digits @ py_str ''abcdef'') kw"

definition dozenal :: "kwargs \<Rightarrow> error + radix" where
  "dozenal kw = Radix_init (string_digits @ py_str ''XE'') (setdefault_sep kw (py_str '';''))"

text \<open>The Pitman digits are U+218A and U+218B.\<close>

definition dozenal_pitman :: "kwargs \<Rightarrow> error + radix" where
  "dozenal_pitman kw =
     Radix_init (string_digits @ [8586, 8587]) (setdefault_sep kw (py_str '';''))"

definition dozenal_pitman_ascii :: "kwargs \<Rightarrow> error + radix" where
  "dozenal_pitman_ascii kw =
     Radix_init (string_digits @ py_str ''TE'') (setdefault_sep kw (py_str '';''))"

text \<open>The Dwiggins digits are U+1D4B3 and U+2130.\<close>

definition dozenal_dwiggins :: "kwargs \<Rightarrow> error + radix" where
  "dozenal_dwiggins kw =
     Radix_init (string_digits @ [119987, 8496]) (setdefault_sep kw (py_str '';''))"

definition dozenal_kramer :: "kwargs \<Rightarrow> error + radix" where
  "dozenal_kramer kw =
     Radix_init (string_digits @ py_str ''*#'') (setdefault_sep kw (py_str '';''))"

definition base62 :: "kwargs \<Rightarrow> error + radix" where
  "base62 kw = Radix_init (string_digits @ ascii_uppercase @ ascii_lowercase) kw"

text \<open>\<open>s.replace(c, "")\<close> for a single character \<open>c\<close>.\<close>

definition remove_char :: "pystr \<Rightarrow> pychar \<Rightarrow> pystr" where
  "remove_char s c = filter (\<lambda>x. x \<noteq> c) s"

definition base57 :: "kwargs \<Rightarrow> error + radix" where
  "base57 kw =
     (let ds = ascii_uppercase @ ascii_lowercase @ string_digits;
          ds = remove_char ds (of_char CHR ''I'');
          ds = remove_char ds (of_char CHR ''l'');
          ds = remove_char ds (of_char CHR ''1'');
          ds = remove_char ds (of_char CHR ''O'');
          ds = remove_char ds (of_char CHR ''0'')
      in Radix_init ds kw)"

subsection \<open>Float arithmetic\<close>

text \<open>
  Python floats are IEEE binary64. In \<open>encode\<close> every float operation is exact
  (\<open>abs\<close>, \<open>divmod(x, 1)\<close> of a non-negative \<open>x\<close>, \<open>int\<close>, comparison) except the
  product \<open>fraction * base\<close> of line 259, whose exact result is rounded to the nearest
  float, ties to even. \<open>round_double\<close> is that rounding on the rationals, with the
  fixed spacing \<open>2^-1074\<close> of the subnormal range; the product of a fraction below one
  and the base cannot leave the finite range.
\<close>

definition round_half_even :: "rat \<Rightarrow> int" where
  "round_half_even x =
     (let f = \<lfloor>x\<rfloor>; d = x - of_int f
      in if d < 1 / 2 then f else if 1 / 2 < d then f + 1 else if even f then f else f + 1)"

text \<open>For \<open>x > 0\<close>, the exponent \<open>e\<close> with \<open>2^e \<le> x < 2^(e+1)\<close>.\<close>

definition floor_log2 :: "rat \<Rightarrow> int" where
  "floor_log2 x =
     (let (a, b) = quotient_of x; d = bitlen a - bitlen b
      in if power_int 2 d \<le> x then d else d - 1)"

definition round_double :: "rat \<Rightarrow> rat" where
  "round_double x =
     (if x = 0 then 0
      else let p = max (floor_log2 \<bar>x\<bar> - 52) (- 1074)
           in of_int (round_half_even (x / power_int 2 p)) * power_int 2 p)"

text \<open>
  The arithmetic of \<open>decode\<close>, on numbers whose float value is not modelled. None of
  its float operations raises: the power has a base of at least one and a negative
  exponent, the product and the sum of floats do not raise in Python. What can raise is
  the conversion of an \<open>int\<close> operand of a float sum: \<open>OverflowError\<close> when the
  \<open>int\<close> rounds beyond the largest float.
\<close>

definition float_overflows :: "int \<Rightarrow> bool" where
  "float_overflows n \<longleftrightarrow> 2 ^ 1024 - 2 ^ 970 \<le> \<bar>n\<bar>"

text \<open>
  \<open>base ** exponent\<close> for the \<open>int\<close> operands of \<open>decode\<close>: an \<open>int\<close> for a
  non-negative exponent, otherwise a float (\<open>ZeroDivisionError\<close> for base 0).
\<close>

definition py_pow :: "nat \<Rightarrow> int \<Rightarrow> error + unit number" where
  "py_pow b e =
     (if 0 \<le> e then Inr (PyInt (int b ^ nat e))
      else if b = 0 then Inl ZeroDivisionError
      else Inr (PyFloat ()))"

text \<open>\<open>i * x\<close> for a digit position \<open>i\<close>.\<close>

fun py_mul :: "nat \<Rightarrow> unit number \<Rightarrow> unit number" where
  "py_mul i (PyInt n) = PyInt (int i * n)"
| "py_mul i (PyFloat x) = PyFloat ()"

fun py_add :: "unit number \<Rightarrow> unit number \<Rightarrow> error + unit number" where
  "py_add (PyInt m) (PyInt n) = Inr (PyInt (m + n))"
| "py_add (PyInt m) (PyFloat y) = (if float_overflows m then Inl OverflowError else Inr (PyFloat ()))"
| "py_add (PyFloat x) (PyInt n) = (if float_overflows n then Inl OverflowError else Inr (PyFloat ()))"
| "py_add (PyFloat x) (PyFloat y) = Inr (PyFloat ())"

text \<open>\<open>x *= -1\<close>.\<close>

fun py_negate :: "unit number \<Rightarrow> unit number" where
  "py_negate (PyInt n) = PyInt (- n)"
| "py_negate (PyFloat x) = PyFloat ()"

fun is_negative_number :: "rat number \<Rightarrow> bool" where
  "is_negative_number (PyInt n) \<longleftrightarrow> n < 0"
| "is_negative_number (PyFloat q) \<longleftrightarrow> q < 0"

section \<open>encode (lines 197-286)\<close>

text \<open>
  The format \<open>fmt\<close> is \<open>None\<close> or an \<open>int\<close>, the scale. A format string is handed
  to Python's format mini-language, which is outside this model; with \<open>fmt\<close> not a
  string, \<open>exponent\<close> is \<open>None\<close> and lines 251-252 and 283-284 do nothing.
\<close>

type_synonym fmt = "int option"

text \<open>\<open>not fmt\<close>: true of \<open>None\<close> and of the integer 0.\<close>

definition not_fmt :: "fmt \<Rightarrow> bool" where
  "not_fmt f \<longleftrightarrow> f = None \<or> f = Some 0"

text \<open>
  Lines 214-217: \<open>divmod(abs(number), 1)\<close>. For an \<open>int\<close> the remainder is the
  \<open>int\<close> 0 and \<open>has_fraction\<close> is false: the second component is \<open>None\<close>. For a float
  it is the float remainder.
\<close>

fun split_number :: "rat number \<Rightarrow> nat \<times> rat option" where
  "split_number (PyInt n) = (nat \<bar>n\<bar>, None)"
| "split_number (PyFloat q) = (nat \<lfloor>\<bar>q\<bar>\<rfloor>, Some (\<bar>q\<bar> - of_int \<lfloor>\<bar>q\<bar>\<rfloor>))"

text \<open>
  Lines 222-224, the loop \<open>while integer\<close>. With base 0 the \<open>divmod\<close> raises; with
  base 1 \<open>integer\<close> never changes and the loop does not return, which is the value
  \<open>None\<close>.
\<close>

partial_function (option) int_indexes :: "nat \<Rightarrow> nat \<Rightarrow> nat list \<Rightarrow> (error + nat list) option" where
  "int_indexes b integer indexes =
     (if integer = 0 then Some (Inr indexes)
      else if b = 0 then Some (Inl ZeroDivisionError)
      else int_indexes b (integer div b) ((integer mod b) # indexes))"

declare int_indexes.simps [code]

text \<open>Lines 219-226.\<close>

definition integer_indexes :: "nat \<Rightarrow> nat \<Rightarrow> (error + nat list) option" where
  "integer_indexes b integer =
     (if integer \<noteq> 0 then int_indexes b integer [] else Some (Inr [0]))"

text \<open>
  Line 246: \<open>int(k * "1")\<close>. CPython converts between \<open>int\<close> and \<open>str\<close> only up
  to a number of digits, 4300 unless the interpreter is configured otherwise, and
  raises \<open>ValueError\<close> beyond. The template \<open>int\<close> of \<open>k\<close> ones is represented by
  \<open>k\<close>.
\<close>

definition max_str_digits :: nat where
  "max_str_digits = 4300"

definition int_template :: "nat \<Rightarrow> error + nat" where
  "int_template k = (if max_str_digits < k then Inl ValueError else Inr k)"

text \<open>
  Lines 247-249 for an \<open>int\<close> and the format \<open>d\<close>: \<open>format(template, "d")\<close> of the
  template of \<open>k\<close> ones, negated first for a negative number. The sign does not count
  for the limit, so this conversion does not raise after the one of line 246.
\<close>

definition format_d :: "bool \<Rightarrow> nat \<Rightarrow> pystr" where
  "format_d negative k = (if negative then py_str ''-'' else []) @ replicate k (of_char CHR ''1'')"

text \<open>
  Lines 241-249 for a float: \<open>format(float(k * "1" + "." + scale * "1"), ".<scale>f")\<close>.
  A negative scale is not a precision and \<open>format\<close> raises \<open>ValueError\<close>. From 310
  integer digits on, \<open>float\<close> returns infinity, which formats as \<open>inf\<close>. Otherwise the
  result has \<open>k\<close> integer digits, the first of them \<open>1\<close>, and \<open>scale\<close> fractional
  digits after a point, no point for scale 0. \<open>_fill_template\<close> treats all decimal
  digits after a first non-zero one alike, so each is written \<open>1\<close> here.
\<close>

definition format_f :: "bool \<Rightarrow> nat \<Rightarrow> int \<Rightarrow> error + pystr" where
  "format_f negative k scale =
     (if scale < 0 then Inl ValueError
      else Inr ((if negative then py_str ''-'' else []) @
                (if 310 \<le> k then py_str ''inf''
                 else replicate k (of_char CHR ''1'') @
                      (if scale = 0 then []
                       else py_str ''.'' @ replicate (nat scale) (of_char CHR ''1'')))))"

text \<open>
  Lines 258-260, \<open>for i in range(scale)\<close>: the first argument counts the iterations
  left.
\<close>

fun frac_indexes :: "nat \<Rightarrow> nat \<Rightarrow> rat \<Rightarrow> nat list \<Rightarrow> nat list \<times> rat" where
  "frac_indexes 0 b fraction indexes = (indexes, fraction)"
| "frac_indexes (Suc n) b fraction indexes =
     (let x = round_double (fraction * of_nat b); index = \<lfloor>x\<rfloor>
      in frac_indexes n b (x - of_int index) (indexes @ [nat index]))"

text \<open>
  Lines 263-272, the carry walk \<open>for i in range(len(indexes)-1, -1, -1)\<close> with its
  \<open>else\<close>: the last argument is the number of positions not yet visited, so the one
  visited is \<open>i\<close> of \<open>Suc i\<close>. Every element of \<open>indexes\<close> is an \<open>int\<close>, so the test
  of line 264 never skips.
\<close>

fun carry :: "nat \<Rightarrow> nat list \<Rightarrow> nat \<Rightarrow> nat list" where
  "carry b indexes 0 = 1 # indexes"
| "carry b indexes (Suc i) =
     (if indexes ! i + 1 = b then carry b (indexes[i := 0]) i
      else indexes[i := indexes ! i + 1])"

text \<open>Lines 262-272.\<close>

definition round_indexes :: "nat \<Rightarrow> nat list \<Rightarrow> rat \<Rightarrow> nat list" where
  "round_indexes b indexes fraction =
     (if 1 / 2 < fraction then carry b indexes (length indexes) else indexes)"

text \<open>Line 274: \<open>[self.digits[index] for index in indexes]\<close>.\<close>

fun lookup_digits :: "radix \<Rightarrow> nat list \<Rightarrow> error + pystr" where
  "lookup_digits r [] = Inr []"
| "lookup_digits r (index # indexes) =
     (if index < length (digits r)
      then (case lookup_digits r indexes of Inl e \<Rightarrow> Inl e | Inr ds \<Rightarrow> Inr (digits r ! index # ds))
      else Inl IndexError)"

text \<open>
  \<open>_fill_template\<close> (lines 300-321). The arguments after the template are the digits
  not yet popped and \<open>is_left_fill\<close>; the result is what the remaining template adds
  to \<open>output\<close>.
\<close>

fun fill_template :: "radix \<Rightarrow> pystr \<Rightarrow> pystr \<Rightarrow> bool \<Rightarrow> error + pystr" where
  "fill_template r [] ds is_left_fill = Inr []"
| "fill_template r (char # template) ds is_left_fill =
     (let is_left_fill = (if is_left_fill \<and> char \<in> set (drop 1 string_digits) then False
                          else is_left_fill)
      in if char \<in> set string_digits then
           (if ds \<noteq> [] \<and> \<not> is_left_fill then
              (case fill_template r template (tl ds) is_left_fill of
                 Inl e \<Rightarrow> Inl e | Inr out \<Rightarrow> Inr (hd ds # out))
            else if digits r = [] then Inl IndexError
            else (case fill_template r template ds is_left_fill of
                    Inl e \<Rightarrow> Inl e | Inr out \<Rightarrow> Inr (hd (digits r) # out)))
         else
           (case fill_template r template ds is_left_fill of
              Inl e \<Rightarrow> Inl e
            | Inr out \<Rightarrow>
                Inr ((if char = of_char CHR ''-'' then neg r
                      else if char = of_char CHR ''.'' then sep r
                      else if char = of_char CHR '','' then tsep r
                      else if char = of_char CHR ''+'' then pos r
                      else [char]) @ out)))"

text \<open>Lines 279-281.\<close>

definition trim_zeros :: "radix \<Rightarrow> pystr \<Rightarrow> error + pystr" where
  "trim_zeros r output =
     (if digits r = [] then Inl IndexError
      else let output = rstrip output [hd (digits r)]
           in Inr (if endswith output (sep r) then output @ [hd (digits r)] else output))"

text \<open>
  Lines 228-281 for a number without fraction, after the integer digits are there. The
  template is built before it is formatted; a scale other than 0 is passed to
  \<open>format\<close> as it is, an \<open>int\<close> where a string is required.
\<close>

definition encode_int :: "radix \<Rightarrow> bool \<Rightarrow> fmt \<Rightarrow> nat list \<Rightarrow> error + pystr" where
  "encode_int r negative f indexes =
     (case int_template (length indexes) of
        Inl e \<Rightarrow> Inl e
      | Inr k \<Rightarrow>
          if not_fmt f then
            (case lookup_digits r indexes of
               Inl e \<Rightarrow> Inl e
             | Inr ds \<Rightarrow> fill_template r (format_d negative k) ds True)
          else Inl TypeError)"

text \<open>
  Lines 228-272 for a float: the scale, the template (which fixes the number of digit
  places before the fraction is rounded), the fractional digits and the rounding.
\<close>

definition float_scale :: "fmt \<Rightarrow> nat list \<Rightarrow> int" where
  "float_scale f indexes = (if not_fmt f then 17 - int (length indexes) else the f)"

definition float_indexes :: "nat \<Rightarrow> fmt \<Rightarrow> rat \<Rightarrow> nat list \<Rightarrow> nat list" where
  "float_indexes b f fraction indexes =
     (let (indexes, fraction) = frac_indexes (nat (float_scale f indexes)) b fraction indexes
      in round_indexes b indexes fraction)"

definition encode_float :: "radix \<Rightarrow> bool \<Rightarrow> fmt \<Rightarrow> rat \<Rightarrow> nat list \<Rightarrow> error + pystr" where
  "encode_float r negative f fraction indexes =
     (case format_f negative (length indexes) (float_scale f indexes) of
        Inl e \<Rightarrow> Inl e
      | Inr template \<Rightarrow>
          (case lookup_digits r (float_indexes (base r) f fraction indexes) of
             Inl e \<Rightarrow> Inl e
           | Inr ds \<Rightarrow>
               (case fill_template r template ds True of
                  Inl e \<Rightarrow> Inl e
                | Inr output \<Rightarrow> if not_fmt f then trim_zeros r output else Inr output)))"

text \<open>\<open>encode\<close>: \<open>None\<close> when the loop of lines 222-224 does not return.\<close>

definition encode :: "radix \<Rightarrow> rat number \<Rightarrow> fmt \<Rightarrow> (error + pystr) option" where
  "encode r number f =
     (let (integer, fraction) = split_number number
      in case integer_indexes (base r) integer of
           None \<Rightarrow> None
         | Some (Inl e) \<Rightarrow> Some (Inl e)
         | Some (Inr indexes) \<Rightarrow>
             Some (case fraction of
                     None \<Rightarrow> encode_int r (is_negative_number number) f indexes
                   | Some fr \<Rightarrow> encode_float r (is_negative_number number) f fr indexes))"

section \<open>decode (lines 323-351)\<close>

text \<open>Lines 341-347: the loop over the characters, \<open>exponent\<close> counting down.\<close>

fun decode_loop :: "radix \<Rightarrow> pystr \<Rightarrow> int \<Rightarrow> unit number \<Rightarrow> error + unit number" where
  "decode_loop r [] exponent output = Inr output"
| "decode_loop r (digit # number) exponent output =
     (case char_index (digits r) digit of
        None \<Rightarrow> Inl ValueError
      | Some i \<Rightarrow>
          (case py_pow (base r) exponent of
             Inl e \<Rightarrow> Inl e
           | Inr p \<Rightarrow>
               (case py_add output (py_mul i p) of
                  Inl e \<Rightarrow> Inl e
                | Inr output \<Rightarrow> decode_loop r number (exponent - 1) output)))"

text \<open>
  Lines 329-339: the string after \<open>strip\<close> and after one leading character is cut
  when it starts with a sign; then the first separator is looked up, and cut out if
  there is one (one character at its position).
\<close>

definition unsigned :: "radix \<Rightarrow> pystr \<Rightarrow> pystr" where
  "unsigned r number =
     (let number = strip number
      in if startswith number (neg r) \<or> startswith number (pos r) then drop 1 number else number)"

definition digit_run :: "radix \<Rightarrow> pystr \<Rightarrow> pystr" where
  "digit_run r number =
     (case str_index number (sep r) of
        None \<Rightarrow> number
      | Some i \<Rightarrow> take i number @ drop (i + 1) number)"

definition first_exponent :: "radix \<Rightarrow> pystr \<Rightarrow> int" where
  "first_exponent r number =
     (case str_index number (sep r) of
        None \<Rightarrow> int (length number) - 1
      | Some i \<Rightarrow> int i - 1)"

definition decode :: "radix \<Rightarrow> pystr \<Rightarrow> error + unit number" where
  "decode r number =
     (let is_negative = startswith (strip number) (neg r);
          number = unsigned r number
      in case decode_loop r (digit_run r number) (first_exponent r number) (PyInt 0) of
           Inl e \<Rightarrow> Inl e
         | Inr output \<Rightarrow> Inr (if is_negative then py_negate output else output))"

section \<open>The lifetime of a Radix object\<close>

text \<open>
  After construction the attributes can be assigned: \<open>digits\<close> goes through the
  setter, the five symbols are plain attributes. \<open>encode\<close>, \<open>decode\<close> and
  \<open>_fill_template\<close> assign no attribute (\<open>digits.pop(0)\<close> in \<open>_fill_template\<close> pops
  the local list of line 274).
\<close>

datatype assignment =
  Assign_digits pystr
| Assign_sep pystr
| Assign_neg pystr
| Assign_tsep pystr
| Assign_pos pystr
| Assign_exp pystr

fun assign :: "radix \<Rightarrow> assignment \<Rightarrow> radix" where
  "assign r (Assign_digits ds) = set_digits r ds"
| "assign r (Assign_sep s) = r\<lparr>sep := s\<rparr>"
| "assign r (Assign_neg s) = r\<lparr>neg := s\<rparr>"
| "assign r (Assign_tsep s) = r\<lparr>tsep := s\<rparr>"
| "assign r (Assign_pos s) = r\<lparr>pos := s\<rparr>"
| "assign r (Assign_exp s) = r\<lparr>exp_sym := s\<rparr>"

section \<open>Notions used in the statements\<close>

text \<open>
  The number that a list of digit positions denotes in base \<open>b\<close>, most significant
  first, and the number that a string of digit symbols denotes under a Radix.
\<close>

fun digits_value :: "nat \<Rightarrow> nat list \<Rightarrow> nat" where
  "digits_value b [] = 0"
| "digits_value b (d # ds) = d * b ^ length ds + digits_value b ds"

definition str_value :: "radix \<Rightarrow> pystr \<Rightarrow> nat" where
  "str_value r s = digits_value (base r) (map (\<lambda>c. the (char_index (digits r) c)) s)"




text \<open>
  The alphabets on which \<open>encode\<close> and \<open>decode\<close> are inverse to each other: at
  least two digit symbols, all different and none of them whitespace (which \<open>strip\<close>
  would remove), and a separator, a negative and a positive sign of one character each
  that is not a digit, the signs not whitespace either. Every preset is one of them
  (\<open>presets_supported\<close>, \<open>by_base_supported\<close>).
\<close>

definition supported :: "radix \<Rightarrow> bool" where
  "supported r \<longleftrightarrow>
     base r = length (digits r) \<and> 2 \<le> length (digits r) \<and> distinct (digits r) \<and>
     (\<forall>c\<in>set (digits r). \<not> isspace c) \<and>
     length (sep r) = 1 \<and> hd (sep r) \<notin> set (digits r) \<and>
     length (neg r) = 1 \<and> hd (neg r) \<notin> set (digits r) \<and> \<not> isspace (hd (neg r)) \<and>
     length (pos r) = 1 \<and> hd (pos r) \<notin> set (digits r) \<and> \<not> isspace (hd (pos r))"

section \<open>Construction\<close>

lemma assign_keeps_base: "base r = length (digits r) \<Longrightarrow> base (assign r a) = length (digits (assign r a))"
  by (cases a) (simp_all add: set_digits_def)

lemma foldl_assign_keeps_base:
  "base r = length (digits r) \<Longrightarrow> base (foldl assign r as) = length (digits (foldl assign r as))"
proof (induction as arbitrary: r)
  case Nil
  then show ?case by simp
next
  case (Cons a as)
  from Cons.prems have "base (assign r a) = length (digits (assign r a))"
    by (rule assign_keeps_base)
  then show ?case using Cons.IH by simp
qed

lemma Radix_init_base: "Radix_init ds kw = Inr r \<Longrightarrow> base r = length (digits r) \<and> digits r = ds"
  by (auto simp: Radix_init_def)

text \<open>
  C9. For every Radix object, at every point of its lifetime, also after \<open>digits\<close> is
  reassigned, the base is the number of digit symbols: whatever the constructor's
  arguments and whatever sequence of attribute assignments follows, \<open>base\<close> equals
  \<open>len(digits)\<close>.
\<close>

theorem base_is_len_digits:
  "Radix_init ds kw = Inr r \<Longrightarrow> base (foldl assign r as) = length (digits (foldl assign r as))"
  using Radix_init_base [of ds kw r] foldl_assign_keeps_base [of r as] by simp

theorem base_is_len_digits_witness:
  "Radix_init (py_str ''01'') no_kwargs = Inr (projr (Radix_init (py_str ''01'') no_kwargs)) \<and>
   base (foldl assign (projr (Radix_init (py_str ''01'') no_kwargs))
           [Assign_sep (py_str '';''), Assign_digits (py_str ''012'')]) = 3 \<and>
   length (digits (foldl assign (projr (Radix_init (py_str ''01'') no_kwargs))
           [Assign_sep (py_str '';''), Assign_digits (py_str ''012'')])) = 3"
  using base_is_len_digits [of "py_str ''01''" no_kwargs "projr (Radix_init (py_str ''01'') no_kwargs)"
      "[Assign_sep (py_str '';''), Assign_digits (py_str ''012'')]"]
  by (simp add: Radix_init_def set_digits_def py_str_def)

text \<open>
  C8, as stated, fails: the constructor checks nothing. An empty digit sequence gives an
  object of base 0, and the digits \<open>0.0\<close>, where a digit occurs twice and another
  is the separator, give an object of base 3.
\<close>

theorem Radix_init_accepts_collisions:
  "Radix_init [] no_kwargs =
     Inr \<lparr>digits = [], base = 0, sep = py_str ''.'', neg = py_str ''-'', tsep = py_str '','',
          pos = py_str ''+'', exp_sym = py_str ''e''\<rparr> \<and>
   Radix_init (py_str ''0.0'') no_kwargs =
     Inr \<lparr>digits = py_str ''0.0'', base = 3, sep = py_str ''.'', neg = py_str ''-'',
          tsep = py_str '','', pos = py_str ''+'', exp_sym = py_str ''e''\<rparr>"
  by (simp add: Radix_init_def no_kwargs_def py_str_def)

text \<open>
  C8, amended. Constructing a Radix never fails: for every digit sequence and every
  choice of symbols, colliding or not, and for the empty digit sequence, it returns the
  object that holds the digits and the symbols as given (the defaults for those not
  given), with the base equal to the number of digit symbols.
\<close>

theorem Radix_init_always_succeeds:
  "\<exists>r. Radix_init ds kw = Inr r \<and> digits r = ds \<and> base r = length ds \<and>
       sep r = (case kw_sep kw of None \<Rightarrow> py_str ''.'' | Some s \<Rightarrow> s) \<and>
       neg r = (case kw_neg kw of None \<Rightarrow> py_str ''-'' | Some s \<Rightarrow> s) \<and>
       tsep r = (case kw_tsep kw of None \<Rightarrow> py_str '','' | Some s \<Rightarrow> s) \<and>
       pos r = (case kw_pos kw of None \<Rightarrow> py_str ''+'' | Some s \<Rightarrow> s) \<and>
       exp_sym r = (case kw_exp kw of None \<Rightarrow> py_str ''e'' | Some s \<Rightarrow> s)"
  by (simp add: Radix_init_def)

lemma length_pool: "length (string_digits @ ascii_uppercase @ ascii_lowercase @ []) = 62"
  by (simp add: string_digits_def ascii_uppercase_def ascii_lowercase_def py_str_def)

text \<open>
  C7, as stated, fails: \<open>by_base\<close> slices the pool of 62 symbols and raises nothing.
  For 63 it returns the alphabet of all 62 symbols, for 0 the empty alphabet.
\<close>

theorem by_base_63_and_0_return:
  "by_base 63 no_kwargs =
     Inr \<lparr>digits = py_str ''0123456789ABCDEFGHIJKLMNOPQRSTUVWXYZabcdefghijklmnopqrstuvwxyz'',
          base = 62, sep = py_str ''.'', neg = py_str ''-'', tsep = py_str '','',
          pos = py_str ''+'', exp_sym = py_str ''e''\<rparr> \<and>
   by_base 0 no_kwargs =
     Inr \<lparr>digits = [], base = 0, sep = py_str ''.'', neg = py_str ''-'', tsep = py_str '','',
          pos = py_str ''+'', exp_sym = py_str ''e''\<rparr>"
  by (simp add: by_base_def Radix_init_def no_kwargs_def string_digits_def ascii_uppercase_def
      ascii_lowercase_def py_str_def)

text \<open>
  C7, amended. \<open>by_base\<close> never fails: for every \<open>n\<close> it returns the alphabet whose
  digits are the first \<open>min(|n|, 62)\<close> symbols, in order, of the pool 0-9, A-Z, a-z, and
  whose base is that number. So for \<open>1 \<le> n \<le> 62\<close> the alphabet has exactly \<open>n\<close>
  digits; beyond 62 it has the 62 of the pool, and for 0 it is empty.
\<close>

theorem by_base_takes_from_pool:
  "\<exists>r. by_base n kw = Inr r \<and>
       digits r = take (nat \<bar>n\<bar>) (string_digits @ ascii_uppercase @ ascii_lowercase) \<and>
       length (digits r) = min (nat \<bar>n\<bar>) 62 \<and> base r = min (nat \<bar>n\<bar>) 62"
proof -
  let ?pool = "string_digits @ ascii_uppercase @ ascii_lowercase"
  have len: "length ?pool = 62"
    using length_pool by simp
  have "length (take (nat \<bar>n\<bar>) ?pool) = min (length ?pool) (nat \<bar>n\<bar>)"
    by (rule length_take)
  then have "length (take (nat \<bar>n\<bar>) ?pool) = min (nat \<bar>n\<bar>) 62"
    by (simp only: len min.commute)
  then show ?thesis
    by (simp add: by_base_def Radix_init_def del: length_take take_append)
qed

section \<open>decode: blank input and errors\<close>

lemma char_index_None: "char_index ds c = None \<longleftrightarrow> c \<notin> set ds"
  by (induction ds) auto

lemma char_index_Some: "char_index ds c = Some i \<Longrightarrow> i < length ds \<and> ds ! i = c"
  by (induction ds arbitrary: i) (auto split: if_splits)

lemma char_index_nth: "distinct ds \<Longrightarrow> i < length ds \<Longrightarrow> char_index ds (ds ! i) = Some i"
proof (induction ds arbitrary: i)
  case Nil
  then show ?case by simp
next
  case (Cons a ds)
  show ?case
  proof (cases i)
    case 0
    then show ?thesis by simp
  next
    case (Suc j)
    with Cons.prems have "j < length ds" "ds ! j \<in> set ds" "a \<notin> set ds" by auto
    then have "a \<noteq> ds ! j" by auto
    with Suc Cons show ?thesis by auto
  qed
qed

lemma strip_empty: "\<forall>c\<in>set s. isspace c \<Longrightarrow> strip s = []"
proof -
  assume "\<forall>c\<in>set s. isspace c"
  then have d: "dropWhile isspace s = []" by simp
  show ?thesis unfolding strip_def d by simp
qed

lemma decode_stripped_empty: "strip s = [] \<Longrightarrow> decode r s = Inr (PyInt 0)"
  by (simp add: decode_def unsigned_def digit_run_def first_exponent_def startswith_def
      split: option.splits)

lemma decode_stripped_sign:
  "strip s = [c] \<Longrightarrow> neg r = [c] \<or> pos r = [c] \<Longrightarrow> decode r s = Inr (PyInt 0)"
  by (auto simp add: decode_def unsigned_def digit_run_def first_exponent_def startswith_def
      split: option.splits)

lemma strip_single: "strip [c] = (if isspace c then [] else [c])"
  by (simp add: strip_def)

text \<open>
  C10. \<open>decode\<close> of the empty string, of a string of whitespace only, or of a string
  that is a single sign symbol (the negative or the positive sign of the Radix, such as
  \<open>-\<close> or \<open>+\<close>) returns the \<open>int\<close> 0 and raises nothing.
\<close>

theorem decode_blank_or_sign:
  "(\<forall>c\<in>set s. isspace c) \<or> (length s = 1 \<and> (s = neg r \<or> s = pos r)) \<Longrightarrow>
   decode r s = Inr (PyInt 0)"
proof (cases "\<forall>c\<in>set s. isspace c")
  case True
  then show ?thesis by (simp add: strip_empty decode_stripped_empty)
next
  case False
  assume "(\<forall>c\<in>set s. isspace c) \<or> (length s = 1 \<and> (s = neg r \<or> s = pos r))"
  with False obtain c where s: "s = [c]" and sign: "neg r = [c] \<or> pos r = [c]"
    by (cases s) auto
  with False have "strip s = [c]" by (simp add: strip_single)
  then show ?thesis using sign by (rule decode_stripped_sign)
qed

theorem decode_blank_or_sign_witness:
  "length (py_str ''-'') = 1 \<and> py_str ''-'' = neg (projr (hex no_kwargs)) \<and>
   decode (projr (hex no_kwargs)) (py_str ''-'') = Inr (PyInt 0) \<and>
   py_str ''+'' = pos (projr (hex no_kwargs)) \<and>
   decode (projr (hex no_kwargs)) (py_str ''+'') = Inr (PyInt 0) \<and>
   decode (projr (hex no_kwargs)) [] = Inr (PyInt 0) \<and>
   decode (projr (hex no_kwargs)) (py_str '' '') = Inr (PyInt 0)"
  using decode_blank_or_sign [of "py_str ''-''" "projr (hex no_kwargs)"]
    decode_blank_or_sign [of "py_str ''+''" "projr (hex no_kwargs)"]
    decode_blank_or_sign [of "[]" "projr (hex no_kwargs)"]
    decode_blank_or_sign [of "py_str '' ''" "projr (hex no_kwargs)"]
  by (simp add: hex_def Radix_init_def no_kwargs_def py_str_def isspace_def)

lemma py_pow_error: "py_pow b e = Inl err \<Longrightarrow> err = ZeroDivisionError \<and> b = 0"
  by (auto simp: py_pow_def split: if_splits)

lemma py_add_error: "py_add x y = Inl err \<Longrightarrow> err = OverflowError"
  by (cases x; cases y) (auto split: if_splits)

lemma decode_loop_ValueError:
  "decode_loop r cs e out = Inl ValueError \<Longrightarrow> \<exists>c\<in>set cs. c \<notin> set (digits r)"
proof (induction cs arbitrary: e out)
  case Nil
  then show ?case by simp
next
  case (Cons c cs)
  show ?case
  proof (cases "c \<in> set (digits r)")
    case False
    then show ?thesis by simp
  next
    case True
    then obtain i where i: "char_index (digits r) c = Some i"
      using char_index_None [of "digits r" c] by auto
    from Cons.prems i obtain p out' where "py_pow (base r) e = Inr p"
      "py_add out (py_mul i p) = Inr out'" "decode_loop r cs (e - 1) out' = Inl ValueError"
      by (auto split: sum.splits dest: py_pow_error py_add_error)
    then show ?thesis using Cons.IH by auto
  qed
qed

lemma decode_loop_rejects:
  "\<exists>c\<in>set cs. c \<notin> set (digits r) \<Longrightarrow> \<exists>err. decode_loop r cs e out = Inl err"
proof (induction cs arbitrary: e out)
  case Nil
  then show ?case by simp
next
  case (Cons c cs)
  show ?case
  proof (cases "c \<in> set (digits r)")
    case False
    then have "char_index (digits r) c = None" by (simp add: char_index_None)
    then show ?thesis by simp
  next
    case True
    with Cons.prems have "\<exists>c\<in>set cs. c \<notin> set (digits r)" by auto
    then have "\<And>e out. \<exists>err. decode_loop r cs e out = Inl err" by (rule Cons.IH)
    then show ?thesis by (auto split: option.splits sum.splits)
  qed
qed

lemma decode_loop_errors:
  "base r = length (digits r) \<Longrightarrow> decode_loop r cs e out = Inl err \<Longrightarrow>
   err = ValueError \<or> err = OverflowError"
proof (induction cs arbitrary: e out)
  case Nil
  then show ?case by simp
next
  case (Cons c cs)
  show ?case
  proof (cases "char_index (digits r) c")
    case None
    with Cons.prems show ?thesis by simp
  next
    case (Some i)
    then have "digits r \<noteq> []" by (cases "digits r") auto
    with Cons.prems(1) have "base r \<noteq> 0" by simp
    then obtain p where p: "py_pow (base r) e = Inr p"
      by (cases "0 \<le> e") (simp_all add: py_pow_def)
    show ?thesis
    proof (cases "py_add out (py_mul i p)")
      case (Inl a)
      with Cons.prems(2) Some p show ?thesis by (auto dest: py_add_error)
    next
      case (Inr out')
      with Cons.prems(2) Some p have "decode_loop r cs (e - 1) out' = Inl err" by simp
      with Cons.prems(1) show ?thesis by (rule Cons.IH)
    qed
  qed
qed

lemma decode_Inl:
  "decode r s = Inl err \<longleftrightarrow>
   decode_loop r (digit_run r (unsigned r s)) (first_exponent r (unsigned r s)) (PyInt 0) = Inl err"
  by (simp add: decode_def Let_def split: sum.splits)

lemma hex_12G: "decode (projr (hex no_kwargs)) (py_str ''12G'') = Inl ValueError"
  by (simp add: decode_def unsigned_def digit_run_def first_exponent_def strip_def isspace_def
      startswith_def hex_def Radix_init_def no_kwargs_def py_str_def string_digits_def py_pow_def)

lemma float_overflows_1: "\<not> float_overflows 1"
  by (simp add: float_overflows_def)

text \<open>
  C5, as stated, fails: only the first separator is taken out, so a second one is looked
  up among the digits. Under the hexadecimal alphabet every character of \<open>1.2.3\<close> is a
  digit symbol or the separator, and \<open>decode\<close> raises \<open>ValueError\<close>.
\<close>

theorem decode_second_separator_invalid:
  "decode (projr (hex no_kwargs)) (py_str ''1.2.3'') = Inl ValueError \<and>
   set (py_str ''1.2.3'') \<subseteq>
     set (digits (projr (hex no_kwargs))) \<union> set (sep (projr (hex no_kwargs)))"
  by (simp add: float_overflows_1 decode_def unsigned_def digit_run_def first_exponent_def strip_def
      isspace_def startswith_def hex_def Radix_init_def no_kwargs_def py_str_def string_digits_def
      py_pow_def)

text \<open>
  C5, amended. \<open>decode\<close> raises \<open>ValueError\<close> if and only if, after whitespace is
  stripped, one leading character is cut when the string starts with a sign, and the
  first occurrence of the separator is cut out, a character is left that is not a digit
  symbol (a further separator is such a character), and no \<open>OverflowError\<close> comes
  first (it does when a fractional digit follows an integer part too large for a
  float). Under the hexadecimal alphabet \<open>decode("12G")\<close> raises \<open>ValueError\<close>.
  The Radix is one whose base is the number of its digits, as every constructed one is.
\<close>

theorem decode_ValueError_iff:
  "(base r = length (digits r) \<longrightarrow>
      (decode r s = Inl ValueError \<longleftrightarrow>
         (\<exists>c\<in>set (digit_run r (unsigned r s)). c \<notin> set (digits r)) \<and>
         decode r s \<noteq> Inl OverflowError)) \<and>
   decode (projr (hex no_kwargs)) (py_str ''12G'') = Inl ValueError"
proof (intro conjI impI)
  assume inv: "base r = length (digits r)"
  let ?loop = "decode_loop r (digit_run r (unsigned r s)) (first_exponent r (unsigned r s)) (PyInt 0)"
  show "decode r s = Inl ValueError \<longleftrightarrow>
         (\<exists>c\<in>set (digit_run r (unsigned r s)). c \<notin> set (digits r)) \<and>
         decode r s \<noteq> Inl OverflowError"
  proof
    assume "decode r s = Inl ValueError"
    then show "(\<exists>c\<in>set (digit_run r (unsigned r s)). c \<notin> set (digits r)) \<and>
      decode r s \<noteq> Inl OverflowError"
      using decode_loop_ValueError [of r _ _ "PyInt 0"] by (simp add: decode_Inl)
  next
    assume a: "(\<exists>c\<in>set (digit_run r (unsigned r s)). c \<notin> set (digits r)) \<and>
      decode r s \<noteq> Inl OverflowError"
    then obtain err where err: "?loop = Inl err"
      using decode_loop_rejects by blast
    with inv have "err = ValueError \<or> err = OverflowError" by (rule decode_loop_errors)
    moreover from a have "?loop \<noteq> Inl OverflowError" by (simp add: decode_Inl)
    ultimately have "?loop = Inl ValueError" using err by auto
    then show "decode r s = Inl ValueError" by (simp add: decode_Inl)
  qed
next
  show "decode (projr (hex no_kwargs)) (py_str ''12G'') = Inl ValueError"
    by (rule hex_12G)
qed

theorem decode_ValueError_iff_witness:
  "base (projr (hex no_kwargs)) = length (digits (projr (hex no_kwargs))) \<and>
   decode (projr (hex no_kwargs)) (py_str ''12G'') = Inl ValueError \<and>
   digit_run (projr (hex no_kwargs)) (unsigned (projr (hex no_kwargs)) (py_str ''12G'')) =
     py_str ''12G'' \<and>
   of_char CHR ''G'' \<notin> set (digits (projr (hex no_kwargs)))"
  using decode_ValueError_iff [of "projr (hex no_kwargs)" "py_str ''12G''"]
  by (simp add: unsigned_def digit_run_def strip_def isspace_def
      startswith_def hex_def Radix_init_def no_kwargs_def py_str_def string_digits_def)

section \<open>Integers: encode, then decode\<close>

lemma digits_value_append:
  "digits_value b (xs @ ys) = digits_value b xs * b ^ length ys + digits_value b ys"
  by (induction xs) (simp_all add: power_add algebra_simps)

lemma int_indexes_value:
  "2 \<le> b \<Longrightarrow> \<exists>idx. int_indexes b n acc = Some (Inr (idx @ acc)) \<and> digits_value b idx = n \<and>
     (\<forall>d\<in>set idx. d < b) \<and> (0 < n \<longrightarrow> idx \<noteq> []) \<and> (\<forall>k. length idx \<le> k \<longleftrightarrow> n < b ^ k)"
proof (induction n arbitrary: acc rule: less_induct)
  case (less n)
  show ?case
  proof (cases "n = 0")
    case True
    then have "int_indexes b n acc = Some (Inr ([] @ acc))"
      by (subst int_indexes.simps) simp
    with True less.prems show ?thesis by fastforce
  next
    case False
    with less.prems have lt: "n div b < n" by simp
    from less.IH [OF lt less.prems, of "(n mod b) # acc"]
    obtain idx where idx: "int_indexes b (n div b) ((n mod b) # acc) = Some (Inr (idx @ (n mod b) # acc))"
      "digits_value b idx = n div b" "\<forall>d\<in>set idx. d < b" "\<forall>k. length idx \<le> k \<longleftrightarrow> n div b < b ^ k"
      by blast
    from False less.prems have "int_indexes b n acc = int_indexes b (n div b) ((n mod b) # acc)"
      by (subst int_indexes.simps) simp
    with idx(1) have 1: "int_indexes b n acc = Some (Inr ((idx @ [n mod b]) @ acc))" by simp
    have 2: "digits_value b (idx @ [n mod b]) = n"
      using idx(2) by (simp add: digits_value_append)
    have 3: "\<forall>d\<in>set (idx @ [n mod b]). d < b"
      using idx(3) less.prems by simp
    have 4: "length (idx @ [n mod b]) \<le> k \<longleftrightarrow> n < b ^ k" for k
    proof (cases k)
      case 0
      with False show ?thesis by simp
    next
      case (Suc k')
      have "n div b < b ^ k' \<longleftrightarrow> n < b ^ k' * b"
        using less.prems by (intro div_less_iff_less_mult) simp
      with idx(4) Suc show ?thesis by (simp add: mult.commute)
    qed
    from 1 2 3 4 show ?thesis by blast
  qed
qed

lemma integer_indexes_value:
  assumes "2 \<le> b"
  shows "\<exists>idx. integer_indexes b n = Some (Inr idx) \<and> digits_value b idx = n \<and> idx \<noteq> [] \<and>
      (\<forall>d\<in>set idx. d < b) \<and> (\<forall>k. 0 < k \<longrightarrow> (length idx \<le> k \<longleftrightarrow> n < b ^ k))"
proof (cases "n = 0")
  case True
  then show ?thesis using assms by (auto simp: integer_indexes_def)
next
  case False
  then show ?thesis
    using int_indexes_value [OF assms, of n "[]"] by (auto simp: integer_indexes_def)
qed

lemma lookup_digits_map:
  "\<forall>i\<in>set idx. i < length (digits r) \<Longrightarrow> lookup_digits r idx = Inr (map ((!) (digits r)) idx)"
  by (induction idx) simp_all

lemma fill_template_ones:
  "length ds = k \<Longrightarrow> fill_template r (replicate k (of_char CHR ''1'')) ds lf = Inr ds"
proof (induction k arbitrary: ds lf)
  case 0
  then show ?case by simp
next
  case (Suc k)
  then obtain d ds' where ds: "ds = d # ds'" "length ds' = k" by (cases ds) auto
  have "fill_template r (replicate k (of_char CHR ''1'')) ds' False = Inr ds'"
    using ds(2) by (rule Suc.IH)
  then show ?case
    by (simp add: ds string_digits_def py_str_def)
qed

lemma fill_template_format_d:
  "length ds = k \<Longrightarrow>
   fill_template r (format_d negative k) ds True = Inr ((if negative then neg r else []) @ ds)"
  using fill_template_ones [of ds k r True]
  by (simp add: format_d_def string_digits_def py_str_def)

lemma encode_int_digits:
  assumes "supported r" "\<bar>n\<bar> < int (base r) ^ max_str_digits"
  shows "\<exists>idx. encode r (PyInt n) None =
            Some (Inr ((if n < 0 then neg r else []) @ map ((!) (digits r)) idx)) \<and>
          digits_value (base r) idx = nat \<bar>n\<bar> \<and> idx \<noteq> [] \<and> (\<forall>d\<in>set idx. d < length (digits r))"
proof -
  from assms have b: "base r = length (digits r)" "2 \<le> base r" by (simp_all add: supported_def)
  from integer_indexes_value [OF b(2), of "nat \<bar>n\<bar>"]
  obtain idx where idx: "integer_indexes (base r) (nat \<bar>n\<bar>) = Some (Inr idx)"
    "digits_value (base r) idx = nat \<bar>n\<bar>" "idx \<noteq> []" "\<forall>d\<in>set idx. d < length (digits r)"
    and len: "length idx \<le> max_str_digits \<longleftrightarrow> nat \<bar>n\<bar> < base r ^ max_str_digits"
    using b by (auto simp: max_str_digits_def)
  from assms(2) have "int (nat \<bar>n\<bar>) < int (base r ^ max_str_digits)" by simp
  then have "nat \<bar>n\<bar> < base r ^ max_str_digits" by (simp only: of_nat_less_iff)
  with len have t: "int_template (length idx) = Inr (length idx)"
    by (simp add: int_template_def)
  have "encode r (PyInt n) None =
      Some (Inr ((if n < 0 then neg r else []) @ map ((!) (digits r)) idx))"
    using idx(1) lookup_digits_map [OF idx(4)] t
      fill_template_format_d [of "map ((!) (digits r)) idx" "length idx" r "n < 0"]
    by (simp add: encode_def encode_int_def not_fmt_def)
  with idx show ?thesis by blast
qed

lemma encode_int_too_long:
  assumes "2 \<le> base r" "int (base r) ^ max_str_digits \<le> \<bar>n\<bar>"
  shows "encode r (PyInt n) f = Some (Inl ValueError)"
proof -
  from integer_indexes_value [OF assms(1), of "nat \<bar>n\<bar>"]
  obtain idx where idx: "integer_indexes (base r) (nat \<bar>n\<bar>) = Some (Inr idx)"
    and len: "length idx \<le> max_str_digits \<longleftrightarrow> nat \<bar>n\<bar> < base r ^ max_str_digits"
    by (auto simp: max_str_digits_def)
  from assms(2) have "int (base r ^ max_str_digits) \<le> int (nat \<bar>n\<bar>)" by simp
  then have "base r ^ max_str_digits \<le> nat \<bar>n\<bar>" by (simp only: of_nat_le_iff)
  with len have "int_template (length idx) = Inl ValueError"
    by (simp add: int_template_def)
  with idx show ?thesis
    by (simp add: encode_def encode_int_def)
qed

lemma strip_id: "s \<noteq> [] \<Longrightarrow> \<not> isspace (hd s) \<Longrightarrow> \<not> isspace (last s) \<Longrightarrow> strip s = s"
proof -
  assume s: "s \<noteq> []" "\<not> isspace (hd s)" "\<not> isspace (last s)"
  then have 1: "dropWhile isspace s = s" by (simp add: dropWhile_eq_self_iff)
  from s have "\<not> isspace (hd (rev s))" by (simp add: hd_rev)
  then have 2: "dropWhile isspace (rev s) = rev s" by (simp add: dropWhile_eq_self_iff)
  show ?thesis unfolding strip_def 1 2 by simp
qed

lemma str_index_single_None: "c \<notin> set s \<Longrightarrow> str_index s [c] = None"
  by (induction s) (auto simp: startswith_def)

lemma str_index_single_Some: "c \<notin> set ds \<Longrightarrow> str_index (ds @ c # fs) [c] = Some (length ds)"
  by (induction ds) (auto simp: startswith_def)

lemma str_value_Cons:
  "str_value r (c # cs) = the (char_index (digits r) c) * base r ^ length cs + str_value r cs"
  by (simp add: str_value_def)

lemma decode_loop_int:
  "set ds \<subseteq> set (digits r) \<Longrightarrow>
   decode_loop r (ds @ rest) (int (length ds) - 1) (PyInt a) =
   decode_loop r rest (- 1) (PyInt (a + int (str_value r ds)))"
proof (induction ds arbitrary: a)
  case Nil
  then show ?case by (simp add: str_value_def)
next
  case (Cons c cs)
  then obtain i where i: "char_index (digits r) c = Some i"
    using char_index_None [of "digits r" c] by auto
  have pow: "py_pow (base r) (int (length cs)) = Inr (PyInt (int (base r) ^ length cs))"
    by (simp add: py_pow_def)
  from Cons.prems have "set cs \<subseteq> set (digits r)" by simp
  from Cons.IH [OF this, of "a + int i * int (base r) ^ length cs"]
  show ?case by (simp add: i pow str_value_Cons algebra_simps)
qed

lemma decode_loop_float:
  "base r \<noteq> 0 \<Longrightarrow> set fs \<subseteq> set (digits r) \<Longrightarrow> e < 0 \<Longrightarrow>
   decode_loop r fs e (PyFloat ()) = Inr (PyFloat ())"
proof (induction fs arbitrary: e)
  case Nil
  then show ?case by simp
next
  case (Cons c cs)
  then obtain i where i: "char_index (digits r) c = Some i"
    using char_index_None [of "digits r" c] by auto
  from Cons.prems have pow: "py_pow (base r) e = Inr (PyFloat ())"
    by (simp add: py_pow_def)
  from Cons.prems have "set cs \<subseteq> set (digits r)" "e - 1 < 0" by simp_all
  from Cons.IH [OF Cons.prems(1) this] show ?case by (simp add: i pow)
qed

lemma decode_loop_first_float:
  assumes "base r \<noteq> 0" "set fs \<subseteq> set (digits r)" "fs \<noteq> []" "\<not> float_overflows a"
  shows "decode_loop r fs (- 1) (PyInt a) = Inr (PyFloat ())"
proof -
  from assms(3) obtain c cs where fs: "fs = c # cs" by (cases fs) auto
  with assms obtain i where i: "char_index (digits r) c = Some i"
    using char_index_None [of "digits r" c] by auto
  from assms have pow: "py_pow (base r) (- 1) = Inr (PyFloat ())"
    by (simp add: py_pow_def)
  from fs assms have "set cs \<subseteq> set (digits r)" by simp
  from decode_loop_float [OF assms(1) this, of "- 2"]
  have "decode_loop r cs (- 2) (PyFloat ()) = Inr (PyFloat ())"
    by simp
  then show ?thesis using assms(4) by (simp add: fs i pow)
qed

lemma unsigned_signed:
  assumes "supported r" "ds \<noteq> []" "hd ds \<in> set (digits r)" "last (ds @ rest) \<in> set (digits r)"
    "sg = [] \<or> sg = neg r \<or> sg = pos r"
  shows "unsigned r (sg @ ds @ rest) = ds @ rest \<and>
         startswith (strip (sg @ ds @ rest)) (neg r) = (sg = neg r)"
proof -
  from assms(1) obtain n p where np: "neg r = [n]" "pos r = [p]"
    "n \<notin> set (digits r)" "p \<notin> set (digits r)" "\<not> isspace n" "\<not> isspace p"
    "\<forall>c\<in>set (digits r). \<not> isspace c"
    unfolding supported_def by (cases "neg r"; cases "pos r") auto
  let ?s = "sg @ ds @ rest"
  from assms obtain d ds' where ds: "ds = d # ds'" "d \<in> set (digits r)" by (cases ds) auto
  have "?s \<noteq> []" using assms(2) by simp
  moreover have "\<not> isspace (hd ?s)" using assms(5) np ds by auto
  moreover have "last ?s = last (ds @ rest)" using assms(2) by simp
  then have "\<not> isspace (last ?s)" using assms(4) np(7) by simp
  ultimately have strip: "strip ?s = ?s" by (rule strip_id)
  from ds np have dn: "d \<noteq> n" "d \<noteq> p" by auto
  show ?thesis
    using assms(5) dn unfolding unsigned_def strip Let_def
    by (auto simp: startswith_def np ds)
qed

lemma decode_signed_digits:
  assumes "supported r" "ds \<noteq> []" "set ds \<subseteq> set (digits r)" "sg = [] \<or> sg = neg r \<or> sg = pos r"
  shows "decode r (sg @ ds) =
         Inr (PyInt (if sg = neg r then - int (str_value r ds) else int (str_value r ds)))"
proof -
  from assms(1) obtain c where c: "sep r = [c]" "c \<notin> set (digits r)"
    unfolding supported_def by (cases "sep r") auto
  from assms(2,3) have "hd ds \<in> set (digits r)" "last (ds @ []) \<in> set (digits r)" by auto
  from unsigned_signed [OF assms(1,2) this assms(4)]
  have u: "unsigned r (sg @ ds) = ds" "startswith (strip (sg @ ds)) (neg r) = (sg = neg r)" by simp_all
  from c assms(3) have "c \<notin> set ds" by auto
  then have idx: "str_index ds (sep r) = None" by (simp add: c str_index_single_None)
  from decode_loop_int [OF assms(3), of "[]" 0]
  have "decode_loop r ds (int (length ds) - 1) (PyInt 0) = Inr (PyInt (int (str_value r ds)))"
    by simp
  then show ?thesis
    by (simp add: decode_def u digit_run_def first_exponent_def idx)
qed

lemma decode_signed_fraction:
  assumes "supported r" "ds \<noteq> []" "set ds \<subseteq> set (digits r)" "sg = [] \<or> sg = neg r \<or> sg = pos r"
    "fs \<noteq> []" "set fs \<subseteq> set (digits r)" "int (str_value r ds) < 2 ^ 1024 - 2 ^ 970"
  shows "decode r (sg @ ds @ sep r @ fs) = Inr (PyFloat ())"
proof -
  from assms(1) obtain c where c: "sep r = [c]" "c \<notin> set (digits r)"
    unfolding supported_def by (cases "sep r") auto
  from assms(1) have b: "base r \<noteq> 0" by (auto simp: supported_def)
  from assms(2,3,5,6) have "hd ds \<in> set (digits r)" "last (ds @ sep r @ fs) \<in> set (digits r)" by auto
  from unsigned_signed [OF assms(1,2) this assms(4)]
  have u: "unsigned r (sg @ ds @ sep r @ fs) = ds @ c # fs"
    "startswith (strip (sg @ ds @ sep r @ fs)) (neg r) = (sg = neg r)" by (simp_all add: c)
  from c assms(3) have "c \<notin> set ds" by auto
  then have idx: "str_index (ds @ c # fs) (sep r) = Some (length ds)"
    by (simp add: c str_index_single_Some)
  from assms(7) have "\<not> float_overflows (0 + int (str_value r ds))"
    by (simp add: float_overflows_def)
  from decode_loop_first_float [OF b assms(6,5) this]
  have "decode_loop r fs (- 1) (PyInt (0 + int (str_value r ds))) = Inr (PyFloat ())" .
  with decode_loop_int [OF assms(3), of fs 0]
  have "decode_loop r (ds @ fs) (int (length ds) - 1) (PyInt 0) = Inr (PyFloat ())" by simp
  then show ?thesis
    using u by (simp add: decode_def digit_run_def first_exponent_def idx)
qed

lemma str_value_map_nth:
  "distinct (digits r) \<Longrightarrow> \<forall>i\<in>set idx. i < length (digits r) \<Longrightarrow>
   str_value r (map ((!) (digits r)) idx) = digits_value (base r) idx"
  by (induction idx) (simp_all add: str_value_def char_index_nth)

lemma by_base_supported:
  assumes "2 \<le> \<bar>b\<bar>"
  shows "supported (projr (by_base b no_kwargs))"
proof -
  let ?pool = "string_digits @ ascii_uppercase @ ascii_lowercase"
  let ?ds = "take (nat \<bar>b\<bar>) ?pool"
  have pool: "distinct ?pool" "length ?pool = 62" "\<forall>c\<in>set ?pool. \<not> isspace c"
    "of_char CHR ''.'' \<notin> set ?pool" "of_char CHR ''-'' \<notin> set ?pool" "of_char CHR ''+'' \<notin> set ?pool"
    by (simp_all add: string_digits_def ascii_uppercase_def ascii_lowercase_def py_str_def isspace_def)
  have sub: "set ?ds \<subseteq> set ?pool" by (rule set_take_subset)
  have 1: "distinct ?ds" using pool(1) by (rule distinct_take)
  have "length ?ds = min (length ?pool) (nat \<bar>b\<bar>)" by (rule length_take)
  then have "length ?ds = min 62 (nat \<bar>b\<bar>)" by (simp only: pool(2))
  moreover from assms have "2 \<le> nat \<bar>b\<bar>" by linarith
  ultimately have 2: "2 \<le> length ?ds" by linarith
  have r: "projr (by_base b no_kwargs) =
      \<lparr>digits = ?ds, base = length ?ds, sep = py_str ''.'', neg = py_str ''-'',
       tsep = py_str '','', pos = py_str ''+'', exp_sym = py_str ''e''\<rparr>"
    by (simp add: by_base_def Radix_init_def no_kwargs_def del: take_append length_take)
  show ?thesis
    unfolding r supported_def using 1 2 sub pool(3-6)
    by (auto simp: py_str_def isspace_def simp del: take_append length_take)
qed

lemma presets_supported:
  "supported (projr (bin no_kwargs))" "supported (projr (oct no_kwargs))"
  "supported (projr (hex no_kwargs))" "supported (projr (hex_lc no_kwargs))"
  "supported (projr (dozenal no_kwargs))" "supported (projr (dozenal_pitman no_kwargs))"
  "supported (projr (dozenal_pitman_ascii no_kwargs))"
  "supported (projr (dozenal_dwiggins no_kwargs))" "supported (projr (dozenal_kramer no_kwargs))"
  "supported (projr (base62 no_kwargs))" "supported (projr (base57 no_kwargs))"
  by (simp_all add: supported_def bin_def oct_def hex_def hex_lc_def dozenal_def dozenal_pitman_def
      dozenal_pitman_ascii_def dozenal_dwiggins_def dozenal_kramer_def base62_def base57_def
      remove_char_def Radix_init_def setdefault_sep_def no_kwargs_def isspace_def
      string_digits_def ascii_uppercase_def ascii_lowercase_def py_str_def)

lemma bin_radix:
  "projr (bin no_kwargs) =
     \<lparr>digits = py_str ''01'', base = 2, sep = py_str ''.'', neg = py_str ''-'',
      tsep = py_str '','', pos = py_str ''+'', exp_sym = py_str ''e''\<rparr>"
  by (simp add: bin_def Radix_init_def no_kwargs_def py_str_def)

text \<open>
  C1, as stated, fails for integers of more than 4300 digits in the base: line 246
  builds the template with \<open>int(len(indexes) * "1")\<close>, which the interpreter refuses
  beyond its limit for the conversion of digit strings. Under the binary alphabet
  \<open>encode(2 ** 4300)\<close>, a number of 4301 digits, raises \<open>ValueError\<close>.
\<close>

theorem encode_int_beyond_digit_limit:
  "encode (projr (bin no_kwargs)) (PyInt (2 ^ 4300)) None = Some (Inl ValueError)"
proof -
  have "(2::nat) \<le> base (projr (bin no_kwargs))"
    by (simp add: bin_radix)
  moreover have "int (base (projr (bin no_kwargs))) ^ max_str_digits \<le> \<bar>2 ^ 4300\<bar>"
    by (simp add: bin_radix max_str_digits_def)
  ultimately show ?thesis by (rule encode_int_too_long)
qed

text \<open>
  C1, amended. Take an alphabet with at least two digit symbols, all different and none
  of them whitespace, and with a separator, a negative sign and a positive sign of one
  character each that is not a digit symbol, the signs not whitespace (\<open>supported\<close>;
  all eleven named presets and \<open>by_base(b)\<close> for \<open>|b| \<ge> 2\<close> are such alphabets, as
  the two lemmas above show). For every integer \<open>n\<close> of at most 4300 digits in the
  base, that is \<open>|n| < base ** 4300\<close>, zero and negative ones included, \<open>encode\<close>
  with the default format returns a string and \<open>decode\<close> of that string returns
  \<open>n\<close>. For every other integer \<open>encode\<close> raises \<open>ValueError\<close>.
\<close>

theorem decode_encode_int:
  "supported r \<Longrightarrow>
   (\<bar>n\<bar> < int (base r) ^ 4300 \<longrightarrow>
      (\<exists>s. encode r (PyInt n) None = Some (Inr s) \<and> decode r s = Inr (PyInt n))) \<and>
   (int (base r) ^ 4300 \<le> \<bar>n\<bar> \<longrightarrow> encode r (PyInt n) None = Some (Inl ValueError))"
proof (intro conjI impI)
  assume r: "supported r" and "\<bar>n\<bar> < int (base r) ^ 4300"
  then have small: "\<bar>n\<bar> < int (base r) ^ max_str_digits"
    by (simp add: max_str_digits_def)
  from encode_int_digits [OF r small] obtain idx where
    enc: "encode r (PyInt n) None = Some (Inr ((if n < 0 then neg r else []) @ map ((!) (digits r)) idx))"
    and val: "digits_value (base r) idx = nat \<bar>n\<bar>"
    and idx: "idx \<noteq> []" "\<forall>d\<in>set idx. d < length (digits r)"
    by blast
  let ?sg = "if n < 0 then neg r else []"
  let ?ds = "map ((!) (digits r)) idx"
  from r have d: "distinct (digits r)" and n: "neg r \<noteq> []" by (auto simp: supported_def)
  have 1: "?ds \<noteq> []" using idx(1) by simp
  have 2: "set ?ds \<subseteq> set (digits r)" using idx(2) by auto
  have 3: "?sg = [] \<or> ?sg = neg r \<or> ?sg = pos r" by simp
  have "str_value r ?ds = nat \<bar>n\<bar>"
    using str_value_map_nth [OF d idx(2)] val by simp
  with decode_signed_digits [OF r 1 2 3] n
  have "decode r (?sg @ ?ds) = Inr (PyInt n)" by (simp split: if_splits)
  with enc show "\<exists>s. encode r (PyInt n) None = Some (Inr s) \<and> decode r s = Inr (PyInt n)"
    by blast
next
  assume r: "supported r" and "int (base r) ^ 4300 \<le> \<bar>n\<bar>"
  then have "int (base r) ^ max_str_digits \<le> \<bar>n\<bar>" "2 \<le> base r"
    by (simp_all add: max_str_digits_def supported_def)
  then show "encode r (PyInt n) None = Some (Inl ValueError)"
    by (rule encode_int_too_long [rotated])
qed

theorem decode_encode_int_witness:
  "supported (projr (dozenal no_kwargs)) \<and>
   \<bar>- 13\<bar> < int (base (projr (dozenal no_kwargs))) ^ 4300 \<and>
   encode (projr (dozenal no_kwargs)) (PyInt (- 13)) None = Some (Inr (py_str ''-11'')) \<and>
   decode (projr (dozenal no_kwargs)) (py_str ''-11'') = Inr (PyInt (- 13))"
proof -
  have r: "projr (dozenal no_kwargs) =
     \<lparr>digits = py_str ''0123456789XE'', base = 12, sep = py_str '';'', neg = py_str ''-'',
      tsep = py_str '','', pos = py_str ''+'', exp_sym = py_str ''e''\<rparr>"
    by (simp add: dozenal_def Radix_init_def setdefault_sep_def no_kwargs_def string_digits_def
        py_str_def)
  have "(12::int) ^ 2 \<le> 12 ^ 4300"
    by (rule power_increasing) simp_all
  moreover have "\<bar>- 13\<bar> < (12::int) ^ 2"
    by simp
  ultimately have "\<bar>- 13\<bar> < (12::int) ^ 4300"
    by (rule less_le_trans [rotated])
  moreover have "int (base (projr (dozenal no_kwargs))) = 12"
    unfolding r by simp
  ultimately have small: "\<bar>- 13\<bar> < int (base (projr (dozenal no_kwargs))) ^ 4300"
    by (simp only:)
  have ev: "encode (projr (dozenal no_kwargs)) (PyInt (- 13)) None = Some (Inr (py_str ''-11'')) \<and>
      decode (projr (dozenal no_kwargs)) (py_str ''-11'') = Inr (PyInt (- 13))"
    unfolding r
    by (simp add: encode_def encode_int_def integer_indexes_def int_indexes.simps int_template_def
        max_str_digits_def not_fmt_def format_d_def decode_def unsigned_def digit_run_def
        first_exponent_def strip_def isspace_def startswith_def py_str_def string_digits_def
        py_pow_def)
  from small ev presets_supported(5)
    decode_encode_int [of "projr (dozenal no_kwargs)" "- 13"]
  show ?thesis by blast
qed

section \<open>What decode accepts\<close>

lemma by_base_10_supported: "supported (projr (by_base 10 no_kwargs))"
  by (simp add: supported_def by_base_def Radix_init_def no_kwargs_def isspace_def
      string_digits_def ascii_uppercase_def ascii_lowercase_def py_str_def)

lemma by_base_10:
  "projr (by_base 10 no_kwargs) =
     \<lparr>digits = py_str ''0123456789'', base = 10, sep = py_str ''.'', neg = py_str ''-'',
      tsep = py_str '','', pos = py_str ''+'', exp_sym = py_str ''e''\<rparr>"
  by (simp add: by_base_def Radix_init_def no_kwargs_def string_digits_def ascii_uppercase_def
      ascii_lowercase_def py_str_def)

text \<open>
  C6, as stated, fails: \<open>decode\<close> knows no group separator. Under the base-10
  alphabet, whose group separator is the default comma, \<open>decode("1,000,000")\<close> raises
  \<open>ValueError\<close>.
\<close>

theorem decode_rejects_group_separator:
  "decode (projr (by_base 10 no_kwargs)) (py_str ''1,000,000'') = Inl ValueError \<and>
   tsep (projr (by_base 10 no_kwargs)) = py_str '',''"
  by (simp add: decode_def unsigned_def digit_run_def first_exponent_def strip_def
      isspace_def startswith_def by_base_def Radix_init_def no_kwargs_def py_str_def string_digits_def
      ascii_uppercase_def ascii_lowercase_def py_pow_def)

text \<open>
  C6, amended. Under a supported alphabet \<open>decode\<close> accepts the plain notation
  without group separators and without exponent part: an optional sign and one or more
  digits are decoded to the integer they denote, negated after the negative sign; and
  when a separator and one or more fractional digits follow, \<open>decode\<close> returns a
  float, provided the integer part is in the range of a float. So
  \<open>decode("1000000")\<close> is 1000000, while the group separators of \<open>1,000,000\<close> are
  invalid digits.
\<close>

theorem decode_accepts_plain_notation:
  assumes "supported r" "sg = [] \<or> sg = neg r \<or> sg = pos r"
    and "ds \<noteq> []" "set ds \<subseteq> set (digits r)" "fs \<noteq> []" "set fs \<subseteq> set (digits r)"
  shows "decode r (sg @ ds) =
           Inr (PyInt (if sg = neg r then - int (str_value r ds) else int (str_value r ds))) \<and>
         (int (str_value r ds) < 2 ^ 1024 - 2 ^ 970 \<longrightarrow>
            decode r (sg @ ds @ sep r @ fs) = Inr (PyFloat ()))"
  using decode_signed_digits [OF assms(1,3,4,2)] decode_signed_fraction [OF assms(1,3,4,2,5,6)]
  by blast

theorem decode_accepts_plain_notation_witness:
  "supported (projr (by_base 10 no_kwargs)) \<and>
   set (py_str ''1000000'') \<subseteq> set (digits (projr (by_base 10 no_kwargs))) \<and>
   set (py_str ''5'') \<subseteq> set (digits (projr (by_base 10 no_kwargs))) \<and>
   str_value (projr (by_base 10 no_kwargs)) (py_str ''1000000'') = 1000000 \<and>
   decode (projr (by_base 10 no_kwargs)) (py_str ''1000000'') = Inr (PyInt 1000000) \<and>
   decode (projr (by_base 10 no_kwargs)) (py_str ''1000000.5'') = Inr (PyFloat ())"
proof -
  let ?r = "projr (by_base 10 no_kwargs)"
  have v: "str_value ?r (py_str ''1000000'') = 1000000"
    by (simp add: str_value_def by_base_10 py_str_def)
  have d: "set (py_str ''1000000'') \<subseteq> set (digits ?r)" "set (py_str ''5'') \<subseteq> set (digits ?r)"
    by (simp_all add: by_base_10 py_str_def)
  have ne: "py_str ''1000000'' \<noteq> []" "py_str ''5'' \<noteq> []"
    and sg: "[] = [] \<or> [] = neg ?r \<or> [] = pos ?r"
    by (simp_all add: py_str_def)
  have n: "([] = neg ?r) = False"
    by (simp add: by_base_10 py_str_def)
  have lt: "int (str_value ?r (py_str ''1000000'')) < 2 ^ 1024 - 2 ^ 970"
    unfolding v by simp
  note acc = decode_accepts_plain_notation [OF by_base_10_supported sg ne(1) d(1) ne(2) d(2)]
  from acc have 1: "decode ?r (py_str ''1000000'') = Inr (PyInt 1000000)"
    unfolding v n by simp
  from acc lt have "decode ?r ([] @ py_str ''1000000'' @ sep ?r @ py_str ''5'') = Inr (PyFloat ())"
    by blast
  moreover have "[] @ py_str ''1000000'' @ sep ?r @ py_str ''5'' = py_str ''1000000.5''"
    by (simp add: by_base_10 py_str_def)
  ultimately have 2: "decode ?r (py_str ''1000000.5'') = Inr (PyFloat ())"
    by simp
  from by_base_10_supported d v 1 2 show ?thesis
    by blast
qed

section \<open>Floats: rounding at a fixed scale\<close>









subsection \<open>The fractional digits of a float are digit positions\<close>











subsection \<open>What encode returns at a fixed scale\<close>











lemma fi_999:
  "float_indexes 10 (Some 0) (557320453887099 / 562949953421312) [9] =
     [9, 9, 9, 0, 0, 0, 0, 0, 0, 0, 0, 0, 0, 0, 0, 0, 2]"
  by code_simp








lemma fl_w: "float_indexes 10 (Some 1) (31 / 32) [9] = [1, 0, 0]"
  by code_simp

section \<open>Floats: the default format and the carry out of the leading digit\<close>

lemma split_65536: "split_number (PyFloat 65536) = (65536, Some 0)"
  by simp

lemma indexes_65536:
  "integer_indexes 2 65536 = Some (Inr [1, 0, 0, 0, 0, 0, 0, 0, 0, 0, 0, 0, 0, 0, 0, 0, 0])"
  by (simp add: integer_indexes_def int_indexes.simps)

lemma fl_65536:
  "float_indexes 2 None 0 [Suc 0, 0, 0, 0, 0, 0, 0, 0, 0, 0, 0, 0, 0, 0, 0, 0, 0] =
     [1, 0, 0, 0, 0, 0, 0, 0, 0, 0, 0, 0, 0, 0, 0, 0, 0]"
  by (simp add: float_indexes_def float_scale_def not_fmt_def round_indexes_def)

lemma format_17:
  "format_f False (length [1::nat, 0, 0, 0, 0, 0, 0, 0, 0, 0, 0, 0, 0, 0, 0, 0, 0])
     (float_scale None [1, 0, 0, 0, 0, 0, 0, 0, 0, 0, 0, 0, 0, 0, 0, 0, 0]) =
   Inr (py_str ''11111111111111111'')"
  by (simp add: format_f_def float_scale_def not_fmt_def py_str_def)

lemma bin_65536: "encode (projr (bin no_kwargs)) (PyFloat 65536) None = Some (Inr (py_str ''1''))"
proof -
  have "encode_float (projr (bin no_kwargs)) False None 0
      [1, 0, 0, 0, 0, 0, 0, 0, 0, 0, 0, 0, 0, 0, 0, 0, 0] = Inr (py_str ''1'')"
    unfolding encode_float_def format_17
    by (simp add: bin_radix fl_65536 not_fmt_def
        trim_zeros_def rstrip_def endswith_def string_digits_def py_str_def)
  then show ?thesis
    by (simp add: encode_def split_65536 bin_radix indexes_65536 del: split_number.simps)
qed

lemma split_1e16: "split_number (PyFloat 10000000000000000) = (10000000000000000, Some 0)"
  by simp

lemma indexes_1e16:
  "integer_indexes 10 10000000000000000 =
     Some (Inr [1, 0, 0, 0, 0, 0, 0, 0, 0, 0, 0, 0, 0, 0, 0, 0, 0])"
  by (simp add: integer_indexes_def int_indexes.simps)

lemma fl_1e16:
  "float_indexes 10 None 0 [Suc 0, 0, 0, 0, 0, 0, 0, 0, 0, 0, 0, 0, 0, 0, 0, 0, 0] =
     [1, 0, 0, 0, 0, 0, 0, 0, 0, 0, 0, 0, 0, 0, 0, 0, 0]"
  by (simp add: float_indexes_def float_scale_def not_fmt_def round_indexes_def)

lemma dec_1e16:
  "encode (projr (by_base 10 no_kwargs)) (PyFloat 10000000000000000) None = Some (Inr (py_str ''1''))"
proof -
  have "encode_float (projr (by_base 10 no_kwargs)) False None 0
      [1, 0, 0, 0, 0, 0, 0, 0, 0, 0, 0, 0, 0, 0, 0, 0, 0] = Inr (py_str ''1'')"
    unfolding encode_float_def format_17
    by (simp add: by_base_10 fl_1e16 not_fmt_def
        trim_zeros_def rstrip_def endswith_def string_digits_def py_str_def)
  then show ?thesis
    by (simp add: encode_def split_1e16 by_base_10 indexes_1e16 del: split_number.simps)
qed

lemma split_100: "split_number (PyFloat 100) = (100, Some 0)"
  by simp

lemma indexes_100: "integer_indexes 10 100 = Some (Inr [1, 0, 0])"
  by (simp add: integer_indexes_def int_indexes.simps)

lemma fl_100:
  "float_indexes 10 None 0 [1, 0, 0] = [1, 0, 0, 0, 0, 0, 0, 0, 0, 0, 0, 0, 0, 0, 0, 0, 0]"
  by code_simp

lemma format_3_14:
  "format_f False (length [1::nat, 0, 0]) (float_scale None [1, 0, 0]) =
     Inr (py_str ''111.11111111111111'')"
  by (simp add: format_f_def float_scale_def not_fmt_def py_str_def eval_nat_numeral)

lemma dec_100:
  "encode (projr (by_base 10 no_kwargs)) (PyFloat 100) None = Some (Inr (py_str ''100.0''))"
proof -
  have "float_indexes 10 None 0 [Suc 0, 0, 0] = [1, 0, 0, 0, 0, 0, 0, 0, 0, 0, 0, 0, 0, 0, 0, 0, 0]"
    using fl_100 by simp
  then have "encode_float (projr (by_base 10 no_kwargs)) False None 0 [1, 0, 0] = Inr (py_str ''100.0'')"
    unfolding encode_float_def format_3_14
    by (simp add: by_base_10 not_fmt_def
        trim_zeros_def rstrip_def endswith_def string_digits_def py_str_def)
  then show ?thesis
    by (simp add: encode_def split_100 by_base_10 indexes_100 del: split_number.simps)
qed

text \<open>
  C2 at its failing inputs. With 17 integer digits the default scale is 0 and the
  output has no separator, so \<open>rstrip\<close> of line 279 removes the zeros of the integer
  part: 65536.0 under the binary alphabet and 1e16 under the base-10 alphabet are both
  encoded as \<open>1\<close>. With fewer integer digits the separator stops it: 100.0 in base 10
  is encoded as \<open>100.0\<close>.
\<close>

theorem default_format_strips_integer_zeros:
  "encode (projr (bin no_kwargs)) (PyFloat 65536) None = Some (Inr (py_str ''1'')) \<and>
   encode (projr (by_base 10 no_kwargs)) (PyFloat 10000000000000000) None = Some (Inr (py_str ''1'')) \<and>
   encode (projr (by_base 10 no_kwargs)) (PyFloat 100) None = Some (Inr (py_str ''100.0''))"
  using bin_65536 dec_1e16 dec_100 by simp

lemma split_999:
  "split_number (PyFloat (5623870034678907 / 562949953421312)) =
     (9, Some (557320453887099 / 562949953421312))"
  by code_simp

lemma indexes_9: "integer_indexes 10 9 = Some (Inr [9])"
  by (simp add: integer_indexes_def int_indexes.simps)

lemma format_1_16:
  "format_f False (length [9::nat]) (float_scale (Some 0) [9]) = Inr (py_str ''1.1111111111111111'')"
  by (simp add: format_f_def float_scale_def not_fmt_def py_str_def eval_nat_numeral)

lemma format_1_1:
  "format_f False (length [9::nat]) (float_scale (Some 1) [9]) = Inr (py_str ''1.1'')"
  by (simp add: format_f_def float_scale_def not_fmt_def py_str_def)

lemma scale0:
  "encode (projr (by_base 10 no_kwargs)) (PyFloat (5623870034678907 / 562949953421312)) (Some 0) =
     Some (Inr (py_str ''9.9900000000000002''))"
proof -
  have "encode_float (projr (by_base 10 no_kwargs)) False (Some 0)
      (557320453887099 / 562949953421312) [9] = Inr (py_str ''9.9900000000000002'')"
    unfolding encode_float_def format_1_16
    by (simp add: by_base_10 fi_999 not_fmt_def
        trim_zeros_def rstrip_def endswith_def string_digits_def py_str_def)
  then show ?thesis
    by (simp add: encode_def split_999 by_base_10 indexes_9 del: split_number.simps)
qed

lemma split_319: "split_number (PyFloat (319 / 32)) = (9, Some (31 / 32))"
  by code_simp

lemma carry_out_dropped:
  "encode (projr (by_base 10 no_kwargs)) (PyFloat (319 / 32)) (Some 1) = Some (Inr (py_str ''1.0''))"
proof -
  have "encode_float (projr (by_base 10 no_kwargs)) False (Some 1) (31 / 32) [9] = Inr (py_str ''1.0'')"
    unfolding encode_float_def format_1_1
    by (simp add: by_base_10 fl_w not_fmt_def string_digits_def py_str_def)
  then show ?thesis
    by (simp add: encode_def split_319 by_base_10 indexes_9 del: split_number.simps)
qed

text \<open>
  C4 at its failing inputs, base 10. The scale 0 is taken for no format at all
  (\<open>not fmt\<close>), so the float 9.99 at scale 0 is encoded with 16 fractional digits and
  without rounding to an integer. At scale 1 the float 9.96875 rounds up through both
  digits and the leading 1 is inserted, but the template was formatted before, with one
  integer place: the last digit is dropped and the result is \<open>1.0\<close>.
\<close>

theorem carry_out_is_not_rendered:
  "encode (projr (by_base 10 no_kwargs)) (PyFloat (5623870034678907 / 562949953421312)) (Some 0) =
     Some (Inr (py_str ''9.9900000000000002'')) \<and>
   encode (projr (by_base 10 no_kwargs)) (PyFloat (319 / 32)) (Some 1) = Some (Inr (py_str ''1.0''))"
  using scale0 carry_out_dropped by simp

end
